theory Spec2Isabelle
  imports Complex_Main "HOL-Library.Multiset"
begin

section \<open>The particle network of GracefullNodeNetwork.tsx\<close>

text \<open>
  The component keeps its whole simulation in closure variables of one effect and
  mutates them from the frame callback and from the event handlers. The embedding makes
  that state a record, each handler a function on it, and every \<open>TypeError\<close> the script
  can raise a value. JavaScript numbers are read as real numbers: the statements below
  are about the arithmetic the source writes down, not about the rounding of doubles,
  and a \<open>NaN\<close> or an infinity has no counterpart here.
\<close>

subsection \<open>Types\<close>

text \<open>\<open>interface Vec2 { x; y }\<close>; the fields are written \<open>X\<close> and \<open>Y\<close>.\<close>

record vec2 =
  X :: real
  Y :: real

text \<open>
  \<open>interface Particle\<close>: \<open>ident\<close> is \<open>id\<close>, \<open>pos\<close> is \<open>p\<close>, \<open>vel\<close> is \<open>v\<close>, \<open>acc\<close> is \<open>a\<close> and
  \<open>ofs\<close> is \<open>o\<close>.
\<close>

record particle =
  ident :: nat
  pos :: vec2
  vel :: vec2
  acc :: vec2
  ofs :: vec2
  phase :: real
  freq :: real

record wave =
  origin :: vec2
  t0 :: real

text \<open>The only exception these paths can raise: a property read or call on \<open>undefined\<close> or \<open>null\<close>.\<close>

datatype error = TypeError

subsection \<open>Utility math\<close>

definition clamp :: "'a::linorder \<Rightarrow> 'a \<Rightarrow> 'a \<Rightarrow> 'a" where
  "clamp v lo hi = max lo (min hi v)"

text \<open>\<open>Math.hypot\<close> of two arguments.\<close>

definition hypot :: "real \<Rightarrow> real \<Rightarrow> real" where
  "hypot x y = sqrt (x\<^sup>2 + y\<^sup>2)"

text \<open>The source's \<open>length\<close>.\<close>

definition length_vec :: "real \<Rightarrow> real \<Rightarrow> real" where
  "length_vec x y = hypot x y"

text \<open>The source's \<open>normalize\<close>.\<close>

definition normalize_vec :: "real \<Rightarrow> real \<Rightarrow> vec2" where
  "normalize_vec x y =
     (let L = hypot x y
      in if L > 1 / 10 ^ 6 then \<lparr>X = x / L, Y = y / L\<rparr> else \<lparr>X = 0, Y = 0\<rparr>)"

definition flowDir :: "real \<Rightarrow> real \<Rightarrow> real \<Rightarrow> vec2" where
  "flowDir x y t =
     (let s1 = sin (0.0009 * x + 0.0007 * y + 0.0005 * t);
          s2 = sin (0.0013 * x - 0.0004 * y + 0.0008 * t);
          c1 = cos (0.0006 * x + 0.0009 * y - 0.0007 * t);
          angle = s1 * 1.1 + s2 * 0.9 + c1 * 0.4
      in \<lparr>X = cos angle, Y = sin angle\<rparr>)"

definition smoothstep :: "real \<Rightarrow> real \<Rightarrow> real \<Rightarrow> real" where
  "smoothstep edge0 edge1 x =
     (let t = clamp ((x - edge0) / (edge1 - edge0)) 0 1
      in t * t * (3 - 2 * t))"

definition smootherstep :: "real \<Rightarrow> real \<Rightarrow> real \<Rightarrow> real" where
  "smootherstep edge0 edge1 x =
     (let t = clamp ((x - edge0) / (edge1 - edge0)) 0 1
      in t * t * t * (t * (t * 6 - 15) + 10))"

subsection \<open>The spatial grid\<close>

text \<open>\<open>class SpatialGrid\<close>: \<open>cells\<close> holds, per bucket, the particle indices pushed into it.\<close>

record spatialGrid =
  cellSize :: real
  cols :: int
  rows :: int
  cells :: "nat list list"

text \<open>The constructor.\<close>

definition newGrid :: "real \<Rightarrow> spatialGrid" where
  "newGrid c = \<lparr>cellSize = c, cols = 0, rows = 0, cells = []\<rparr>"

definition grid_resize :: "spatialGrid \<Rightarrow> real \<Rightarrow> real \<Rightarrow> spatialGrid" where
  "grid_resize g w h =
     (let c = max 1 \<lceil>w / cellSize g\<rceil>;
          r = max 1 \<lceil>h / cellSize g\<rceil>
      in g\<lparr>cols := c, rows := r, cells := replicate (nat (c * r)) []\<rparr>)"

definition grid_clear :: "spatialGrid \<Rightarrow> spatialGrid" where
  "grid_clear g = g\<lparr>cells := map (\<lambda>_. []) (cells g)\<rparr>"

definition indexFor :: "spatialGrid \<Rightarrow> real \<Rightarrow> real \<Rightarrow> int" where
  "indexFor g x y =
     (let cx = clamp \<lfloor>x / cellSize g\<rfloor> 0 (cols g - 1);
          cy = clamp \<lfloor>y / cellSize g\<rfloor> 0 (rows g - 1)
      in cy * cols g + cx)"

text \<open>
  \<open>this.cells[k]\<close> followed by a use of the bucket: outside the array the read gives
  \<open>undefined\<close> and the use raises.
\<close>

definition cellAt :: "spatialGrid \<Rightarrow> int \<Rightarrow> error + nat list" where
  "cellAt g k =
     (if 0 \<le> k \<and> k < int (length (cells g)) then Inr (cells g ! nat k) else Inl TypeError)"

definition grid_insert :: "spatialGrid \<Rightarrow> nat \<Rightarrow> real \<Rightarrow> real \<Rightarrow> error + spatialGrid" where
  "grid_insert g i x y =
     (case cellAt g (indexFor g x y) of
        Inl e \<Rightarrow> Inl e
      | Inr c \<Rightarrow> Inr (g\<lparr>cells := (cells g)[nat (indexFor g x y) := c @ [i]]\<rparr>))"

text \<open>The body of the two nested loops of \<open>candidates\<close>: one bucket, or nothing where the guard skips.\<close>

definition bucket :: "spatialGrid \<Rightarrow> int \<Rightarrow> int \<Rightarrow> error + nat list" where
  "bucket g nx ny =
     (if nx < 0 \<or> ny < 0 \<or> nx \<ge> cols g \<or> ny \<ge> rows g then Inr []
      else cellAt g (ny * cols g + nx))"

text \<open>\<open>yield*\<close> over the visited buckets in order; a raise ends the iteration.\<close>

fun yieldAll :: "(error + nat list) list \<Rightarrow> error + nat list" where
  "yieldAll [] = Inr []"
| "yieldAll (Inl e # rest) = Inl e"
| "yieldAll (Inr xs # rest) =
     (case yieldAll rest of Inl e \<Rightarrow> Inl e | Inr ys \<Rightarrow> Inr (xs @ ys))"

text \<open>
  The generator \<open>candidates\<close>, as the list it yields. The grid is not written while a
  caller iterates, so the lazy sequence and the list agree.
\<close>

definition candidates :: "spatialGrid \<Rightarrow> real \<Rightarrow> real \<Rightarrow> error + nat list" where
  "candidates g x y =
     (let cx = clamp \<lfloor>x / cellSize g\<rfloor> 0 (cols g - 1);
          cy = clamp \<lfloor>y / cellSize g\<rfloor> 0 (rows g - 1)
      in yieldAll (concat (map (\<lambda>oy. map (\<lambda>ox. bucket g (cx + ox) (cy + oy)) [-1, 0, 1])
                               [-1, 0, 1])))"

text \<open>
  The insertion half of the first loop of \<open>stepPhysics\<close>:
  \<open>for (i = 0; i < particles.length; i++) grid.insert(i, pi.p.x, pi.p.y)\<close>, started at index \<open>i\<close>.
\<close>

fun insertFrom :: "nat \<Rightarrow> particle list \<Rightarrow> spatialGrid \<Rightarrow> error + spatialGrid" where
  "insertFrom i [] g = Inr g"
| "insertFrom i (p # rest) g =
     (case grid_insert g i (X (pos p)) (Y (pos p)) of
        Inl e \<Rightarrow> Inl e
      | Inr g' \<Rightarrow> insertFrom (Suc i) rest g')"

text \<open>What \<open>resize\<close> of the grid establishes and \<open>clear\<close> and \<open>insert\<close> keep.\<close>

definition grid_ok :: "spatialGrid \<Rightarrow> bool" where
  "grid_ok g \<longleftrightarrow>
     0 < cellSize g \<and> 1 \<le> cols g \<and> 1 \<le> rows g \<and> int (length (cells g)) = cols g * rows g"


subsection \<open>Configuration\<close>

text \<open>The constants at the head of the effect.\<close>

definition particleCountBase :: real where "particleCountBase = 220"
definition maxLinkDist :: real where "maxLinkDist = 140"
definition baseSpeed :: real where "baseSpeed = 40"
definition flowStrength :: real where "flowStrength = 26"
definition wanderStrength :: real where "wanderStrength = 18"
definition damping :: real where "damping = 0.985"
definition mouseAvoidRadius :: real where "mouseAvoidRadius = 110"
definition mouseAvoidStrength :: real where "mouseAvoidStrength = 350"
definition waveSpeed :: real where "waveSpeed = 800"
definition waveThickness :: real where "waveThickness = 90"
definition waveImpulse :: real where "waveImpulse = 900"
definition waveDrag :: real where "waveDrag = 0.9"
definition maxSpeed :: real where "maxSpeed = 140"

subsection \<open>The state of the effect\<close>

text \<open>The \<open>mouse\<close> object; \<open>mpos\<close> is its \<open>pos\<close>.\<close>

record pointer =
  mpos :: vec2
  inside :: bool
  down :: bool

text \<open>
  The closure variables. \<open>width\<close> and \<open>height\<close> only ever hold \<open>0\<close> (before the first
  \<open>resize\<close>) or \<open>Math.max(1, Math.floor(...))\<close>, so they are natural numbers; \<open>DPR\<close> is
  \<open>Math.max(1, Math.floor(...))\<close> too.
\<close>

record sim =
  DPR :: nat
  width :: nat
  height :: nat
  particles :: "particle list"
  grid :: spatialGrid
  waves :: "wave list"
  mouse :: pointer
  lastT :: real
  raf :: nat

text \<open>
  The part of the page the effect touches: the window's size and pixel ratio, the canvas
  (its bitmap size and what \<open>getContext("2d")\<close> returns, \<open>None\<close> for \<open>null\<close>), the
  registered listeners, and the pending animation-frame requests by handle.
\<close>

datatype target = Canvas | Window

datatype handler = OnMove | OnEnter | OnLeave | OnDown | OnUp | Resize

record ctx2d =
  transform :: "nat \<times> nat \<times> nat \<times> nat \<times> nat \<times> nat"

record page =
  innerWidth :: real
  innerHeight :: real
  devicePixelRatio :: real
  canvasWidth :: nat
  canvasHeight :: nat
  getContext :: "ctx2d option"
  listeners :: "(target \<times> string \<times> handler) list"
  frames :: "nat list"
  frameCount :: nat

text \<open>
  What the host hands out while one particle is made: the results of the ten calls of
  \<open>Math.random()\<close>, in call order, and the reading of \<open>performance.now()\<close>.
\<close>

record chance =
  rnd :: "nat \<Rightarrow> real"
  clock :: real

text \<open>A handler either runs to its end or throws; either way the state it wrote so far stays.\<close>

datatype 'a outcome = Threw error 'a | Done 'a

subsection \<open>Particles and resizing\<close>

definition makeParticle :: "nat \<Rightarrow> nat \<Rightarrow> (nat \<Rightarrow> chance) \<Rightarrow> nat \<Rightarrow> particle" where
  "makeParticle w h src i =
     (let ch = src i;
          p = \<lparr>X = rnd ch 0 * real w, Y = rnd ch 1 * real h\<rparr>;
          seed = clock ch;
          dir = flowDir (X p + rnd ch 2 * 1000) (Y p + rnd ch 3 * 1000) (seed + rnd ch 4 * 1000);
          speed = baseSpeed * (0.6 + rnd ch 5 * 0.8)
      in \<lparr>ident = i,
          pos = p,
          vel = \<lparr>X = X dir * speed, Y = Y dir * speed\<rparr>,
          acc = \<lparr>X = 0, Y = 0\<rparr>,
          ofs = \<lparr>X = rnd ch 6 * 10000, Y = rnd ch 7 * 10000\<rparr>,
          phase = rnd ch 8 * pi * 2,
          freq = 0.2 + rnd ch 9 * 0.6\<rparr>)"

text \<open>
  \<open>resize\<close>. With no drawing context \<open>ctx.setTransform\<close> is a call on \<open>null\<close> and throws,
  after the sizes have been written. \<open>src i\<close> is what the host hands out while particle
  \<open>i\<close> is made.
\<close>

definition resize :: "(nat \<Rightarrow> chance) \<Rightarrow> page \<times> sim \<Rightarrow> (page \<times> sim) outcome" where
  "resize src st =
     (let pg = fst st; s = snd st;
          w = nat (max 1 \<lfloor>innerWidth pg\<rfloor>);
          h = nat (max 1 \<lfloor>innerHeight pg\<rfloor>);
          s1 = s\<lparr>width := w, height := h\<rparr>;
          pg1 = pg\<lparr>canvasWidth := w * DPR s, canvasHeight := h * DPR s\<rparr>
      in case getContext pg1 of
           None \<Rightarrow> Threw TypeError (pg1, s1)
         | Some c \<Rightarrow>
             (let pg2 = pg1\<lparr>getContext := Some (c\<lparr>transform := (DPR s, 0, 0, DPR s, 0, 0)\<rparr>)\<rparr>;
                  s2 = s1\<lparr>grid := grid_resize (grid s1) (real w) (real h)\<rparr>;
                  scale = (real w * real h) / (1920 * 1080);
                  targetCount = nat (max 80 \<lfloor>particleCountBase * scale\<rfloor>);
                  ps = particles s2
              in Done (pg2, s2\<lparr>particles :=
                   (if length ps = 0 then map (makeParticle w h src) [0..<targetCount]
                    else if length ps < targetCount
                      then ps @ map (makeParticle w h src) [length ps..<targetCount]
                    else if length ps > targetCount then take targetCount ps
                    else ps)\<rparr>)))"

subsection \<open>Mounting and teardown\<close>

text \<open>The six registrations of the effect, in order.\<close>

definition registrations :: "(target \<times> string \<times> handler) list" where
  "registrations =
     [(Canvas, ''pointermove'', OnMove), (Canvas, ''pointerenter'', OnEnter),
      (Canvas, ''pointerleave'', OnLeave), (Canvas, ''pointerdown'', OnDown),
      (Window, ''pointerup'', OnUp), (Window, ''resize'', Resize)]"

text \<open>
  The body of the effect up to its \<open>return\<close>: the state, the listeners, the initial
  \<open>resize()\<close>, then \<open>lastT\<close> and the first \<open>requestAnimationFrame(tick)\<close>, which
  hands out the next handle. \<open>lastT\<close> has no
  value before its declaration runs and is not read before; it starts as \<open>0\<close> here.
\<close>

definition mount :: "(nat \<Rightarrow> chance) \<Rightarrow> real \<Rightarrow> page \<Rightarrow> (page \<times> sim) outcome" where
  "mount src now pg =
     (let dpr = nat (max 1 \<lfloor>if devicePixelRatio pg = 0 then 1 else devicePixelRatio pg\<rfloor>);
          s0 = \<lparr>DPR = dpr, width = 0, height = 0, particles = [],
                grid = newGrid maxLinkDist, waves = [],
                mouse = \<lparr>mpos = \<lparr>X = 0, Y = 0\<rparr>, inside = False, down = False\<rparr>,
                lastT = 0, raf = 0\<rparr>;
          pg1 = pg\<lparr>listeners := listeners pg @ registrations\<rparr>
      in case resize src (pg1, s0) of
           Threw e st \<Rightarrow> Threw e st
         | Done st \<Rightarrow>
             (let k = Suc (frameCount (fst st))
              in Done ((fst st)\<lparr>frames := frames (fst st) @ [k], frameCount := k\<rparr>,
                       (snd st)\<lparr>lastT := now, raf := k\<rparr>)))"

text \<open>The function the effect returns.\<close>

definition cleanup :: "page \<times> sim \<Rightarrow> page" where
  "cleanup st =
     (fst st)\<lparr>frames := removeAll (raf (snd st)) (frames (fst st)),
              listeners := fold remove1
                 [(Window, ''resize'', Resize), (Canvas, ''pointermove'', OnMove),
                  (Canvas, ''pointerenter'', OnEnter), (Canvas, ''pointerleave'', OnLeave),
                  (Canvas, ''pointerdown'', OnDown), (Window, ''pointerup'', OnUp)]
                 (listeners (fst st))\<rparr>"

text \<open>
  Unmounting runs the function the effect returned. An effect that threw returned none,
  so nothing runs.
\<close>

definition unmount :: "(page \<times> sim) outcome \<Rightarrow> page" where
  "unmount r = (case r of Threw e st \<Rightarrow> fst st | Done st \<Rightarrow> cleanup st)"

text \<open>A \<open>resize\<close> event of the window: every listener registered for it runs.\<close>

definition resizeEvent :: "(nat \<Rightarrow> chance) \<Rightarrow> page \<times> sim \<Rightarrow> (page \<times> sim) outcome" where
  "resizeEvent src st =
     (if (Window, ''resize'', Resize) \<in> set (listeners (fst st)) then resize src st else Done st)"


subsection \<open>The physics step\<close>

text \<open>Flow steering with the per-particle offset.\<close>

definition applyFlow :: "real \<Rightarrow> particle \<Rightarrow> particle" where
  "applyFlow now p =
     (let dir = flowDir (X (pos p) + X (ofs p)) (Y (pos p) + Y (ofs p))
                        (now * 0.001 + phase p * 0.37)
      in p\<lparr>acc := \<lparr>X = X (acc p) + X dir * flowStrength,
                    Y = Y (acc p) + Y dir * flowStrength\<rparr>\<rparr>)"

text \<open>Personal wander; \<open>Math.hypot(pvx, pvy) || 1\<close> replaces a zero speed by \<open>1\<close>.\<close>

definition applyWander :: "real \<Rightarrow> particle \<Rightarrow> particle" where
  "applyWander now p =
     (let theta = sin (now * 0.001 * (0.5 + freq p) + phase p);
          pvx = X (vel p); pvy = Y (vel p);
          vmag = (if hypot pvx pvy = 0 then 1 else hypot pvx pvy);
          perpX = - pvy / vmag;
          perpY = pvx / vmag
      in p\<lparr>acc := \<lparr>X = X (acc p) + perpX * wanderStrength * theta,
                    Y = Y (acc p) + perpY * wanderStrength * theta\<rparr>\<rparr>)"

text \<open>Mouse avoidance.\<close>

definition applyMouse :: "pointer \<Rightarrow> particle \<Rightarrow> particle" where
  "applyMouse m p =
     (if inside m then
        (let dx = X (pos p) - X (mpos m);
             dy = Y (pos p) - Y (mpos m);
             d = hypot dx dy
         in if d < mouseAvoidRadius then
              (let falloff = 1 - smoothstep 0 mouseAvoidRadius d;
                   force = mouseAvoidStrength * falloff * falloff;
                   n = normalize_vec dx dy
               in p\<lparr>acc := \<lparr>X = X (acc p) + X n * force, Y = Y (acc p) + Y n * force\<rparr>\<rparr>)
            else p)
      else p)"

text \<open>One wave: the body of the loop over \<open>waves\<close>.\<close>

definition applyWave :: "real \<Rightarrow> wave \<Rightarrow> particle \<Rightarrow> particle" where
  "applyWave now wv p =
     (let r = (now - t0 wv) * 0.001 * waveSpeed;
          dx = X (pos p) - X (origin wv);
          dy = Y (pos p) - Y (origin wv);
          d = hypot dx dy;
          band = \<bar>d - r\<bar>
      in if band < waveThickness then
           (let strength = waveImpulse * (1 - smootherstep 0 waveThickness band);
                n = normalize_vec dx dy
            in p\<lparr>acc := \<lparr>X = X (acc p) + X n * strength, Y = Y (acc p) + Y n * strength\<rparr>\<rparr>)
         else p)"

text \<open>The body of the second loop: the four contributions in order.\<close>

definition accumulate :: "real \<Rightarrow> pointer \<Rightarrow> wave list \<Rightarrow> particle \<Rightarrow> particle" where
  "accumulate now m ws p = fold (applyWave now) ws (applyMouse m (applyWander now (applyFlow now p)))"

text \<open>The third loop, block by block: damping, ...\<close>

definition damp :: "real \<Rightarrow> particle \<Rightarrow> particle" where
  "damp dt p =
     p\<lparr>vel := \<lparr>X = (X (vel p) + X (acc p) * dt) * damping,
               Y = (Y (vel p) + Y (acc p) * dt) * damping\<rparr>\<rparr>"

text \<open>... the speed clamp, ...\<close>

definition capSpeed :: "particle \<Rightarrow> particle" where
  "capSpeed p =
     (let vmag = hypot (X (vel p)) (Y (vel p))
      in if vmag > maxSpeed then
           (let s = maxSpeed / vmag in p\<lparr>vel := \<lparr>X = X (vel p) * s, Y = Y (vel p) * s\<rparr>\<rparr>)
         else p)"

text \<open>... the minimum drift (\<open>// Keep a minimum drift so particles don't stall\<close>), ...\<close>

definition keepDrift :: "real \<Rightarrow> particle \<Rightarrow> particle" where
  "keepDrift now p =
     (let vL = length_vec (X (vel p)) (Y (vel p));
          minV = 20
      in if vL < minV then
           (let d = flowDir (X (pos p) * 1.2) (Y (pos p) * 1.1) (now * 0.001)
            in p\<lparr>vel := \<lparr>X = X (vel p) + X d * (minV - vL),
                          Y = Y (vel p) + Y d * (minV - vL)\<rparr>\<rparr>)
         else p)"

text \<open>... the position update, ...\<close>

definition move :: "real \<Rightarrow> particle \<Rightarrow> particle" where
  "move dt p =
     p\<lparr>pos := \<lparr>X = X (pos p) + X (vel p) * dt, Y = Y (pos p) + Y (vel p) * dt\<rparr>\<rparr>"

text \<open>... and the soft wrap: four tests in sequence, each on the value the one before left.\<close>

definition softWrap :: "nat \<Rightarrow> nat \<Rightarrow> particle \<Rightarrow> particle" where
  "softWrap w h p =
     (let x1 = (if X (pos p) < - 10 then real w + 10 else X (pos p));
          x2 = (if x1 > real w + 10 then - 10 else x1);
          y1 = (if Y (pos p) < - 10 then real h + 10 else Y (pos p));
          y2 = (if y1 > real h + 10 then - 10 else y1)
      in p\<lparr>pos := \<lparr>X = x2, Y = y2\<rparr>\<rparr>)"

definition integrate :: "real \<Rightarrow> real \<Rightarrow> nat \<Rightarrow> nat \<Rightarrow> particle \<Rightarrow> particle" where
  "integrate now dt w h p = softWrap w h (move dt (keepDrift now (capSpeed (damp dt p))))"

text \<open>
  The backwards loop that splices out every wave whose radius has passed 1.2 times the
  diagonal: the waves that stay, in their order.
\<close>

definition fadeWaves :: "real \<Rightarrow> nat \<Rightarrow> nat \<Rightarrow> wave list \<Rightarrow> wave list" where
  "fadeWaves now w h ws =
     filter (\<lambda>wv. \<not> ((now - t0 wv) * 0.001 * waveSpeed > hypot (real w) (real h) * 1.2)) ws"

definition drag :: "particle \<Rightarrow> particle" where
  "drag p = p\<lparr>vel := \<lparr>X = X (vel p) * waveDrag, Y = Y (vel p) * waveDrag\<rparr>\<rparr>"

text \<open>
  \<open>stepPhysics\<close>. The first loop clears each accumulator and inserts each particle; the
  insertion raises when the bucket does not exist, which ends the step.
\<close>

definition stepPhysics :: "real \<Rightarrow> real \<Rightarrow> sim \<Rightarrow> error + sim" where
  "stepPhysics now dt s =
     (case insertFrom 0 (particles s) (grid_clear (grid s)) of
        Inl e \<Rightarrow> Inl e
      | Inr g \<Rightarrow>
          (let ps1 = map (\<lambda>p. p\<lparr>acc := \<lparr>X = 0, Y = 0\<rparr>\<rparr>) (particles s);
               ps2 = map (accumulate now (mouse s) (waves s)) ps1;
               ps3 = map (integrate now dt (width s) (height s)) ps2;
               ws = fadeWaves now (width s) (height s) (waves s);
               ps4 = (if length ws > 0 then map drag ps3 else ps3)
           in Inr (s\<lparr>grid := g, particles := ps4, waves := ws\<rparr>)))"

subsection \<open>The neighbour lists of the renderer\<close>







subsection \<open>Auxiliary notions of the proofs\<close>

text \<open>
  One grid grows out of another when inserting into the first can give the second: the
  shape is the same and no bucket lost an index.
\<close>

definition grows :: "spatialGrid \<Rightarrow> spatialGrid \<Rightarrow> bool" where
  "grows g g' \<longleftrightarrow> cellSize g' = cellSize g \<and> cols g' = cols g \<and> rows g' = rows g \<and>
     length (cells g') = length (cells g) \<and>
     (\<forall>k < length (cells g). set (cells g ! k) \<subseteq> set (cells g' ! k))"

text \<open>The speed of a particle.\<close>

definition speed :: "particle \<Rightarrow> real" where
  "speed p = hypot (X (vel p)) (Y (vel p))"

text \<open>The particle count \<open>resize\<close> aims at for a page: its \<open>targetCount\<close>.\<close>

definition targetOf :: "page \<Rightarrow> nat" where
  "targetOf pg =
     nat (max 80 \<lfloor>particleCountBase *
        ((real (nat (max 1 \<lfloor>innerWidth pg\<rfloor>)) * real (nat (max 1 \<lfloor>innerHeight pg\<rfloor>)))
           / (1920 * 1080))\<rfloor>)"



subsection \<open>Example states\<close>

text \<open>A grid for a 300 by 200 viewport, and a particle in the left margin.\<close>

definition gridW :: spatialGrid where
  "gridW = grid_resize (newGrid maxLinkDist) 300 200"

definition particleW :: particle where
  "particleW = \<lparr>ident = 0, pos = \<lparr>X = - 10, Y = 50\<rparr>, vel = \<lparr>X = 0, Y = 0\<rparr>, acc = \<lparr>X = 0, Y = 0\<rparr>,
       ofs = \<lparr>X = 0, Y = 0\<rparr>, phase = 0, freq = 0\<rparr>"

text \<open>A state of the effect after a resize to 300 by 200, holding that one particle.\<close>

definition simW :: sim where
  "simW = \<lparr>DPR = 1, width = 300, height = 200, particles = [particleW], grid = gridW, waves = [],
       mouse = \<lparr>mpos = \<lparr>X = 0, Y = 0\<rparr>, inside = False, down = False\<rparr>, lastT = 0, raf = 1\<rparr>"

text \<open>Two particles that have left the margin band of that viewport, on either side.\<close>

definition particleLow :: particle where
  "particleLow = particleW\<lparr>pos := \<lparr>X = - 11, Y = - 12\<rparr>\<rparr>"

definition particleHigh :: particle where
  "particleHigh = particleW\<lparr>pos := \<lparr>X = 311, Y = 211\<rparr>\<rparr>"

text \<open>
  A particle at the origin that moves against the flow direction there, and the example
  state holding it instead.
\<close>

definition particleStall :: particle where
  "particleStall = \<lparr>ident = 0, pos = \<lparr>X = 0, Y = 0\<rparr>, vel = \<lparr>X = - 10, Y = 0\<rparr>,
       acc = \<lparr>X = 0, Y = 0\<rparr>, ofs = \<lparr>X = 0, Y = 0\<rparr>, phase = 0, freq = 0\<rparr>"

definition simStall :: sim where
  "simStall = simW\<lparr>particles := [particleStall]\<rparr>"

text \<open>A pointer resting on the example particle, and a wave that started there.\<close>

definition pointerW :: pointer where
  "pointerW = \<lparr>mpos = \<lparr>X = - 10, Y = 50\<rparr>, inside = True, down = False\<rparr>"

definition waveW :: wave where
  "waveW = \<lparr>origin = \<lparr>X = - 10, Y = 50\<rparr>, t0 = 0\<rparr>"

text \<open>
  A host whose every \<open>Math.random()\<close> gives one half, a full-HD page with a drawing
  context, and the same page at half the width and height.
\<close>

definition srcW :: "nat \<Rightarrow> chance" where
  "srcW i = \<lparr>rnd = (\<lambda>k. 1 / 2), clock = 1000\<rparr>"

definition pageW :: page where
  "pageW = \<lparr>innerWidth = 1920, innerHeight = 1080, devicePixelRatio = 1, canvasWidth = 300,
       canvasHeight = 150, getContext = Some \<lparr>transform = (1, 0, 0, 1, 0, 0)\<rparr>, listeners = [],
       frames = [], frameCount = 0\<rparr>"

definition pageHalf :: page where
  "pageHalf = pageW\<lparr>innerWidth := 960, innerHeight := 540\<rparr>"

text \<open>
  The full-HD page with no drawing context to hand out, and the state its mounting is
  left in.
\<close>

definition pageNoCtx :: page where
  "pageNoCtx = pageW\<lparr>getContext := None\<rparr>"

definition stateNoCtx :: "page \<times> sim" where
  "stateNoCtx =
     (pageNoCtx\<lparr>listeners := registrations, canvasWidth := 1920, canvasHeight := 1080\<rparr>,
      \<lparr>DPR = 1, width = 1920, height = 1080, particles = [], grid = newGrid maxLinkDist, waves = [],
       mouse = \<lparr>mpos = \<lparr>X = 0, Y = 0\<rparr>, inside = False, down = False\<rparr>, lastT = 0, raf = 0\<rparr>)"


section \<open>Properties\<close>

subsection \<open>The grid finds every particle within the cutoff\<close>


lemma hypot_abs_le1: "\<bar>x\<bar> \<le> hypot x y"
  unfolding hypot_def by (metis real_sqrt_abs real_sqrt_le_iff le_add_same_cancel1 zero_le_power2)

lemma hypot_abs_le2: "\<bar>y\<bar> \<le> hypot x y"
  using hypot_abs_le1[of y x] by (simp add: hypot_def add.commute)

lemma floor_close:
  fixes a b c :: real
  assumes "0 < c" "\<bar>a - b\<bar> \<le> c"
  shows "\<bar>\<lfloor>a / c\<rfloor> - \<lfloor>b / c\<rfloor>\<bar> \<le> 1"
proof -
  have "\<bar>a / c - b / c\<bar> \<le> 1"
    using assms by (simp add: diff_divide_distrib[symmetric])
  then show ?thesis by linarith
qed

lemma clamp_close:
  fixes a b hi :: int
  assumes "\<bar>a - b\<bar> \<le> 1"
  shows "\<bar>clamp a 0 hi - clamp b 0 hi\<bar> \<le> 1"
  using assms unfolding clamp_def by linarith

lemma clamp_range:
  fixes a hi :: int
  assumes "0 \<le> hi"
  shows "0 \<le> clamp a 0 hi \<and> clamp a 0 hi \<le> hi"
  using assms unfolding clamp_def by linarith

lemma cell_index_range:
  fixes nx ny c r :: int
  assumes "0 \<le> nx" "nx < c" "0 \<le> ny" "ny < r"
  shows "0 \<le> ny * c + nx \<and> ny * c + nx < c * r"
proof -
  have "ny * c + nx < ny * c + c" using assms by simp
  also have "\<dots> = (ny + 1) * c" by (simp add: algebra_simps)
  also have "\<dots> \<le> r * c" using assms by (intro mult_right_mono) auto
  finally have "ny * c + nx < c * r" by (simp add: mult.commute)
  moreover have "0 \<le> ny * c" using assms by simp
  ultimately show ?thesis using assms by simp
qed

lemma indexFor_range:
  assumes "grid_ok g"
  shows "0 \<le> indexFor g x y \<and> indexFor g x y < int (length (cells g))"
proof -
  have c: "0 \<le> cols g - 1" and r: "0 \<le> rows g - 1" using assms by (auto simp: grid_ok_def)
  show ?thesis
    using cell_index_range[of "clamp \<lfloor>x / cellSize g\<rfloor> 0 (cols g - 1)" "cols g"
            "clamp \<lfloor>y / cellSize g\<rfloor> 0 (rows g - 1)" "rows g"]
      clamp_range[OF c, of "\<lfloor>x / cellSize g\<rfloor>"] clamp_range[OF r, of "\<lfloor>y / cellSize g\<rfloor>"] assms
    by (simp add: indexFor_def grid_ok_def Let_def)
qed

lemma grows_refl: "grows g g" by (simp add: grows_def)

lemma grows_trans: "grows g g' \<Longrightarrow> grows g' g'' \<Longrightarrow> grows g g''"
  unfolding grows_def by (metis subset_trans)

lemma grows_ok: "grows g g' \<Longrightarrow> grid_ok g \<Longrightarrow> grid_ok g'"
  by (simp add: grows_def grid_ok_def)

lemma grows_indexFor: "grows g g' \<Longrightarrow> indexFor g' x y = indexFor g x y"
  by (simp add: grows_def indexFor_def)

lemma grid_insert_ok:
  assumes "grid_ok g"
  shows "\<exists>g'. grid_insert g i x y = Inr g' \<and> grows g g' \<and>
           i \<in> set (cells g' ! nat (indexFor g x y))"
proof -
  let ?k = "indexFor g x y"
  have k: "0 \<le> ?k" "?k < int (length (cells g))" using indexFor_range[OF assms] by auto
  then have n: "nat ?k < length (cells g)" by linarith
  let ?g = "g\<lparr>cells := (cells g)[nat ?k := cells g ! nat ?k @ [i]]\<rparr>"
  have "grid_insert g i x y = Inr ?g" using k by (simp add: grid_insert_def cellAt_def)
  moreover have "grows g ?g" using n by (auto simp: grows_def nth_list_update)
  moreover have "i \<in> set (cells ?g ! nat ?k)" using n by simp
  ultimately show ?thesis by blast
qed

lemma insertFrom_ok:
  assumes "grid_ok g"
  shows "\<exists>g'. insertFrom k ps g = Inr g' \<and> grows g g' \<and>
           (\<forall>n < length ps. k + n \<in> set (cells g' ! nat (indexFor g (X (pos (ps ! n))) (Y (pos (ps ! n))))))"
  using assms
proof (induction ps arbitrary: k g)
  case Nil
  then show ?case by (simp add: grows_refl)
next
  case (Cons p ps)
  obtain g1 where g1: "grid_insert g k (X (pos p)) (Y (pos p)) = Inr g1" "grows g g1"
      "k \<in> set (cells g1 ! nat (indexFor g (X (pos p)) (Y (pos p))))"
    using grid_insert_ok[OF Cons.prems] by blast
  have ok1: "grid_ok g1" using grows_ok[OF g1(2) Cons.prems] .
  obtain g2 where g2: "insertFrom (Suc k) ps g1 = Inr g2" "grows g1 g2"
      "\<forall>n < length ps. Suc k + n \<in> set (cells g2 ! nat (indexFor g1 (X (pos (ps ! n))) (Y (pos (ps ! n)))))"
    using Cons.IH[OF ok1] by blast
  have run: "insertFrom k (p # ps) g = Inr g2" using g1(1) g2(1) by simp
  have gr: "grows g g2" using grows_trans[OF g1(2) g2(2)] .
  have "k + n \<in> set (cells g2 ! nat (indexFor g (X (pos ((p # ps) ! n))) (Y (pos ((p # ps) ! n)))))"
    if n: "n < length (p # ps)" for n
  proof (cases n)
    case 0
    have "nat (indexFor g (X (pos p)) (Y (pos p))) < length (cells g1)"
      using indexFor_range[OF Cons.prems, of "X (pos p)" "Y (pos p)"] g1(2) unfolding grows_def by linarith
    then have "set (cells g1 ! nat (indexFor g (X (pos p)) (Y (pos p)))) \<subseteq> set (cells g2 ! nat (indexFor g (X (pos p)) (Y (pos p))))"
      using g2(2) by (simp add: grows_def)
    then show ?thesis using 0 g1(3) by auto
  next
    case (Suc m)
    then have "m < length ps" using n by simp
    then show ?thesis using g2(3) Suc by (simp add: grows_indexFor[OF g1(2)])
  qed
  then show ?case using run gr by blast
qed

lemma yieldAll_ok:
  assumes "\<forall>r \<in> set rs. \<exists>xs. r = Inr xs"
  shows "\<exists>cs. yieldAll rs = Inr cs \<and> (\<forall>xs. Inr xs \<in> set rs \<longrightarrow> set xs \<subseteq> set cs)"
  using assms
proof (induction rs)
  case Nil
  then show ?case by simp
next
  case (Cons r rs)
  then obtain xs where r: "r = Inr xs" by auto
  obtain cs where cs: "yieldAll rs = Inr cs" "\<forall>xs. Inr xs \<in> set rs \<longrightarrow> set xs \<subseteq> set cs"
    using Cons by auto
  show ?case using r cs by auto
qed

lemma bucket_ok:
  assumes "grid_ok g"
  shows "\<exists>xs. bucket g nx ny = Inr xs"
proof (cases "nx < 0 \<or> ny < 0 \<or> nx \<ge> cols g \<or> ny \<ge> rows g")
  case True
  then show ?thesis by (simp add: bucket_def)
next
  case False
  then have "0 \<le> ny * cols g + nx \<and> ny * cols g + nx < cols g * rows g"
    using cell_index_range[of nx "cols g" ny "rows g"] by simp
  then show ?thesis using False assms by (simp add: bucket_def cellAt_def grid_ok_def)
qed

lemma candidates_ok:
  assumes ok: "grid_ok g"
    and ox: "ox \<in> {-1, 0, 1}" and oy: "oy \<in> {-1, 0, 1}"
    and nx: "nx = clamp \<lfloor>x / cellSize g\<rfloor> 0 (cols g - 1) + ox"
    and ny: "ny = clamp \<lfloor>y / cellSize g\<rfloor> 0 (rows g - 1) + oy"
    and inx: "0 \<le> nx" "nx < cols g" and iny: "0 \<le> ny" "ny < rows g"
  shows "\<exists>cs. candidates g x y = Inr cs \<and> set (cells g ! nat (ny * cols g + nx)) \<subseteq> set cs"
proof -
  let ?cx = "clamp \<lfloor>x / cellSize g\<rfloor> 0 (cols g - 1)"
  let ?cy = "clamp \<lfloor>y / cellSize g\<rfloor> 0 (rows g - 1)"
  let ?rs = "concat (map (\<lambda>oy. map (\<lambda>ox. bucket g (?cx + ox) (?cy + oy)) [-1, 0, 1]) [-1, 0, 1])"
  have all: "\<forall>r \<in> set ?rs. \<exists>xs. r = Inr xs" using bucket_ok[OF ok] by auto
  obtain cs where cs: "yieldAll ?rs = Inr cs" "\<forall>xs. Inr xs \<in> set ?rs \<longrightarrow> set xs \<subseteq> set cs"
    using yieldAll_ok[OF all] by blast
  have "0 \<le> ny * cols g + nx \<and> ny * cols g + nx < cols g * rows g"
    using cell_index_range[of nx "cols g" ny "rows g"] inx iny by simp
  then have b: "bucket g nx ny = Inr (cells g ! nat (ny * cols g + nx))"
    using inx iny ok by (simp add: bucket_def cellAt_def grid_ok_def)
  have "bucket g nx ny \<in> set ?rs" using ox oy nx ny by auto
  then have "set (cells g ! nat (ny * cols g + nx)) \<subseteq> set cs" using cs(2) b by metis
  moreover have "candidates g x y = Inr cs" using cs(1) by (simp add: candidates_def Let_def)
  ultimately show ?thesis by blast
qed


lemma grid_clear_ok: "grid_ok g \<Longrightarrow> grid_ok (grid_clear g)"
  by (simp add: grid_ok_def grid_clear_def)

lemma grid_resize_ok: "0 < cellSize g \<Longrightarrow> grid_ok (grid_resize g w h)"
  by (simp add: grid_ok_def grid_resize_def Let_def)

lemma offset_cases: "\<bar>a - b\<bar> \<le> 1 \<Longrightarrow> (a::int) - b \<in> {-1, 0, 1}"
  by auto

text \<open>
  C1. Let the particles be inserted, as the physics step does, into a sized and cleared
  grid. Then for every query point \<open>(x, y)\<close> and every particle whose Euclidean distance
  to it is at most the cell size (the cutoff: the grid of the effect has cell size
  \<open>maxLinkDist = 140\<close>), \<open>candidates x y\<close> runs to its end and yields the particle's index.
  Nothing is assumed about where the positions lie: outside the grid both \<open>insert\<close> and
  \<open>candidates\<close> clamp to an edge bucket.
\<close>

theorem candidates_no_false_negatives:
  assumes ok: "grid_ok g"
  shows "\<exists>g'. insertFrom 0 ps (grid_clear g) = Inr g' \<and>
           (\<forall>i < length ps. \<forall>x y.
              hypot (X (pos (ps ! i)) - x) (Y (pos (ps ! i)) - y) \<le> cellSize g \<longrightarrow>
              (\<exists>cs. candidates g' x y = Inr cs \<and> i \<in> set cs))"
proof -
  let ?g0 = "grid_clear g"
  have ok0: "grid_ok ?g0" using grid_clear_ok[OF ok] .
  obtain g' where run: "insertFrom 0 ps ?g0 = Inr g'" and gr: "grows ?g0 g'"
    and mem: "\<forall>n < length ps. 0 + n \<in> set (cells g' ! nat (indexFor ?g0 (X (pos (ps ! n))) (Y (pos (ps ! n)))))"
    using insertFrom_ok[OF ok0, of 0 ps] by blast
  have ok': "grid_ok g'" using grows_ok[OF gr ok0] .
  have shape: "cellSize g' = cellSize g" "cols g' = cols g" "rows g' = rows g"
    using gr by (simp_all add: grows_def grid_clear_def)
  have c0: "0 < cellSize g" and hc: "0 \<le> cols g - 1" and hr: "0 \<le> rows g - 1"
    using ok by (auto simp: grid_ok_def)
  have "\<exists>cs. candidates g' x y = Inr cs \<and> i \<in> set cs"
    if i: "i < length ps"
      and near: "hypot (X (pos (ps ! i)) - x) (Y (pos (ps ! i)) - y) \<le> cellSize g"
    for i x y
  proof -
    let ?px = "X (pos (ps ! i))" and ?py = "Y (pos (ps ! i))"
    let ?pcx = "clamp \<lfloor>?px / cellSize g\<rfloor> 0 (cols g - 1)"
    let ?pcy = "clamp \<lfloor>?py / cellSize g\<rfloor> 0 (rows g - 1)"
    let ?cx = "clamp \<lfloor>x / cellSize g\<rfloor> 0 (cols g - 1)"
    let ?cy = "clamp \<lfloor>y / cellSize g\<rfloor> 0 (rows g - 1)"
    have dx: "\<bar>?px - x\<bar> \<le> cellSize g" using hypot_abs_le1[of "?px - x" "?py - y"] near by linarith
    have dy: "\<bar>?py - y\<bar> \<le> cellSize g" using hypot_abs_le2[of "?py - y" "?px - x"] near by linarith
    have ox: "?pcx - ?cx \<in> {-1, 0, 1}"
      using offset_cases[OF clamp_close[OF floor_close[OF c0 dx]]] .
    have oy: "?pcy - ?cy \<in> {-1, 0, 1}"
      using offset_cases[OF clamp_close[OF floor_close[OF c0 dy]]] .
    have rx: "0 \<le> ?pcx" "?pcx < cols g" using clamp_range[OF hc, of "\<lfloor>?px / cellSize g\<rfloor>"] by auto
    have ry: "0 \<le> ?pcy" "?pcy < rows g" using clamp_range[OF hr, of "\<lfloor>?py / cellSize g\<rfloor>"] by auto
    obtain cs where cs: "candidates g' x y = Inr cs"
        "set (cells g' ! nat (?pcy * cols g' + ?pcx)) \<subseteq> set cs"
      using candidates_ok[OF ok', of "?pcx - ?cx" "?pcy - ?cy" ?pcx x ?pcy y] ox oy rx ry
      by (auto simp: shape)
    have "indexFor ?g0 ?px ?py = ?pcy * cols g' + ?pcx"
      by (simp add: indexFor_def grid_clear_def shape)
    then have "i \<in> set (cells g' ! nat (?pcy * cols g' + ?pcx))" using mem i by auto
    then show ?thesis using cs by blast
  qed
  then show ?thesis using run by blast
qed

lemma hypot_zero2: "hypot x 0 = \<bar>x\<bar>"
  by (simp add: hypot_def)

text \<open>An instance: a particle at \<open>(-10, 50)\<close>, in the left margin, queried from \<open>(100, 50)\<close>.\<close>

theorem candidates_no_false_negatives_witness:
  "grid_ok gridW \<and> hypot (X (pos ([particleW] ! 0)) - 100) (Y (pos ([particleW] ! 0)) - 50) \<le> cellSize gridW \<and>
   (\<exists>g' cs. insertFrom 0 [particleW] (grid_clear gridW) = Inr g' \<and> candidates g' 100 50 = Inr cs \<and> 0 \<in> set cs)"
proof -
  have ok: "grid_ok gridW" by (simp add: gridW_def grid_resize_ok newGrid_def maxLinkDist_def)
  have near: "hypot (X (pos ([particleW] ! 0)) - 100) (Y (pos ([particleW] ! 0)) - 50) \<le> cellSize gridW"
    by (simp add: particleW_def hypot_zero2 gridW_def grid_resize_def newGrid_def maxLinkDist_def Let_def)
  show ?thesis
    using candidates_no_false_negatives[OF ok, of "[particleW]"] ok near by fastforce
qed

subsection \<open>The speed cap\<close>



lemma hypot_scale: "hypot (x * s) (y * s) = \<bar>s\<bar> * hypot x y"
proof -
  have "(x * s)\<^sup>2 + (y * s)\<^sup>2 = s\<^sup>2 * (x\<^sup>2 + y\<^sup>2)" by (simp add: algebra_simps power2_eq_square)
  then show ?thesis by (simp add: hypot_def real_sqrt_mult)
qed

lemma hypot_triangle: "hypot (a + c) (b + d) \<le> hypot a b + hypot c d"
  unfolding hypot_def by (rule real_sqrt_sum_squares_triangle_ineq)

lemma flowDir_unit: "hypot (X (flowDir x y t)) (Y (flowDir x y t)) = 1"
  by (simp add: flowDir_def hypot_def Let_def)



lemma speed_move: "speed (move dt p) = speed p"
  by (simp add: move_def speed_def)

lemma speed_softWrap: "speed (softWrap w h p) = speed p"
  by (simp add: softWrap_def speed_def Let_def)



lemma stepPhysics_returns:
  assumes "grid_ok (grid s)"
  shows "\<exists>g. insertFrom 0 (particles s) (grid_clear (grid s)) = Inr g \<and>
    stepPhysics now dt s = Inr (s\<lparr>grid := g,
       particles :=
         (if length (fadeWaves now (width s) (height s) (waves s)) > 0
          then map drag (map (integrate now dt (width s) (height s))
                 (map (accumulate now (mouse s) (waves s))
                    (map (\<lambda>p. p\<lparr>acc := \<lparr>X = 0, Y = 0\<rparr>\<rparr>) (particles s))))
          else map (integrate now dt (width s) (height s))
                 (map (accumulate now (mouse s) (waves s))
                    (map (\<lambda>p. p\<lparr>acc := \<lparr>X = 0, Y = 0\<rparr>\<rparr>) (particles s)))),
       waves := fadeWaves now (width s) (height s) (waves s)\<rparr>)"
proof -
  obtain g where g: "insertFrom 0 (particles s) (grid_clear (grid s)) = Inr g"
    using insertFrom_ok[OF grid_clear_ok[OF assms], of 0 "particles s"] by blast
  show ?thesis using g by (simp add: stepPhysics_def Let_def)
qed


lemma grid_ok_simW: "grid_ok (grid simW)"
  by (simp add: simW_def gridW_def grid_resize_ok newGrid_def maxLinkDist_def)


subsection \<open>The wraparound band\<close>


lemma softWrap_band:
  "- 10 \<le> X (pos (softWrap w h p)) \<and> X (pos (softWrap w h p)) \<le> real w + 10 \<and>
   - 10 \<le> Y (pos (softWrap w h p)) \<and> Y (pos (softWrap w h p)) \<le> real h + 10"
  by (simp add: softWrap_def Let_def)

lemma pos_drag: "pos (drag p) = pos p"
  by (simp add: drag_def)

lemma integrate_band:
  "- 10 \<le> X (pos (integrate now dt w h p)) \<and> X (pos (integrate now dt w h p)) \<le> real w + 10 \<and>
   - 10 \<le> Y (pos (integrate now dt w h p)) \<and> Y (pos (integrate now dt w h p)) \<le> real h + 10"
  unfolding integrate_def by (rule softWrap_band)

text \<open>
  C3. A physics step on a state whose grid has been sized runs to its end, and at its end
  every particle lies in \<open>[-10, width + 10] \<times> [-10, height + 10]\<close>. The wrap sends a
  coordinate below \<open>-10\<close> to the far edge plus ten and a coordinate beyond the far edge
  plus ten to \<open>-10\<close>, both inside the band, and leaves a coordinate inside the band alone.
\<close>

theorem wraparound_band_after_step:
  "(grid_ok (grid s) \<longrightarrow>
      (\<exists>s'. stepPhysics now dt s = Inr s' \<and> width s' = width s \<and> height s' = height s \<and>
         list_all (\<lambda>p. - 10 \<le> X (pos p) \<and> X (pos p) \<le> real (width s') + 10 \<and>
                        - 10 \<le> Y (pos p) \<and> Y (pos p) \<le> real (height s') + 10) (particles s'))) \<and>
   (X (pos p) < - 10 \<longrightarrow> X (pos (softWrap w h p)) = real w + 10) \<and>
   (X (pos p) > real w + 10 \<longrightarrow> X (pos (softWrap w h p)) = - 10) \<and>
   (Y (pos p) < - 10 \<longrightarrow> Y (pos (softWrap w h p)) = real h + 10) \<and>
   (Y (pos p) > real h + 10 \<longrightarrow> Y (pos (softWrap w h p)) = - 10) \<and>
   (- 10 \<le> X (pos p) \<and> X (pos p) \<le> real w + 10 \<longrightarrow> X (pos (softWrap w h p)) = X (pos p)) \<and>
   (- 10 \<le> Y (pos p) \<and> Y (pos p) \<le> real h + 10 \<longrightarrow> Y (pos (softWrap w h p)) = Y (pos p))"
proof -
  have step: "\<exists>s'. stepPhysics now dt s = Inr s' \<and> width s' = width s \<and> height s' = height s \<and>
         list_all (\<lambda>p. - 10 \<le> X (pos p) \<and> X (pos p) \<le> real (width s') + 10 \<and>
                        - 10 \<le> Y (pos p) \<and> Y (pos p) \<le> real (height s') + 10) (particles s')"
    if ok: "grid_ok (grid s)"
  proof -
    obtain g where run: "stepPhysics now dt s = Inr (s\<lparr>grid := g,
       particles :=
         (if length (fadeWaves now (width s) (height s) (waves s)) > 0
          then map drag (map (integrate now dt (width s) (height s))
                 (map (accumulate now (mouse s) (waves s))
                    (map (\<lambda>p. p\<lparr>acc := \<lparr>X = 0, Y = 0\<rparr>\<rparr>) (particles s))))
          else map (integrate now dt (width s) (height s))
                 (map (accumulate now (mouse s) (waves s))
                    (map (\<lambda>p. p\<lparr>acc := \<lparr>X = 0, Y = 0\<rparr>\<rparr>) (particles s)))),
       waves := fadeWaves now (width s) (height s) (waves s)\<rparr>)"
      using stepPhysics_returns[OF ok] by blast
    show ?thesis
      unfolding run using integrate_band
      by (auto simp: list_all_iff pos_drag)
  qed
  have wrap: "(X (pos p) < - 10 \<longrightarrow> X (pos (softWrap w h p)) = real w + 10) \<and>
   (X (pos p) > real w + 10 \<longrightarrow> X (pos (softWrap w h p)) = - 10) \<and>
   (Y (pos p) < - 10 \<longrightarrow> Y (pos (softWrap w h p)) = real h + 10) \<and>
   (Y (pos p) > real h + 10 \<longrightarrow> Y (pos (softWrap w h p)) = - 10) \<and>
   (- 10 \<le> X (pos p) \<and> X (pos p) \<le> real w + 10 \<longrightarrow> X (pos (softWrap w h p)) = X (pos p)) \<and>
   (- 10 \<le> Y (pos p) \<and> Y (pos p) \<le> real h + 10 \<longrightarrow> Y (pos (softWrap w h p)) = Y (pos p))"
    by (simp add: softWrap_def Let_def)
  show ?thesis using step wrap by blast
qed

text \<open>An instance: the example state, and the two particles outside the band.\<close>

theorem wraparound_band_after_step_witness:
  "grid_ok (grid simW) \<and>
   (\<exists>s'. stepPhysics 16 0.016 simW = Inr s' \<and> width s' = width simW \<and> height s' = height simW \<and>
      list_all (\<lambda>p. - 10 \<le> X (pos p) \<and> X (pos p) \<le> real (width s') + 10 \<and>
                     - 10 \<le> Y (pos p) \<and> Y (pos p) \<le> real (height s') + 10) (particles s')) \<and>
   X (pos particleLow) < - 10 \<and> X (pos (softWrap 300 200 particleLow)) = 310 \<and>
   Y (pos particleLow) < - 10 \<and> Y (pos (softWrap 300 200 particleLow)) = 210 \<and>
   X (pos particleHigh) > 310 \<and> X (pos (softWrap 300 200 particleHigh)) = - 10 \<and>
   Y (pos particleHigh) > 210 \<and> Y (pos (softWrap 300 200 particleHigh)) = - 10 \<and>
   X (pos (softWrap 300 200 particleW)) = X (pos particleW) \<and>
   Y (pos (softWrap 300 200 particleW)) = Y (pos particleW)"
proof -
  have low: "X (pos particleLow) < - 10" "Y (pos particleLow) < - 10"
    by (simp_all add: particleLow_def)
  have high: "X (pos particleHigh) > 310" "Y (pos particleHigh) > 210"
    by (simp_all add: particleHigh_def)
  have mid: "- 10 \<le> X (pos particleW)" "X (pos particleW) \<le> 310"
      "- 10 \<le> Y (pos particleW)" "Y (pos particleW) \<le> 210"
    by (simp_all add: particleW_def)
  show ?thesis
    using wraparound_band_after_step[of simW 16 "0.016" particleLow 300 200]
      wraparound_band_after_step[of simW 16 "0.016" particleHigh 300 200]
      wraparound_band_after_step[of simW 16 "0.016" particleW 300 200]
      grid_ok_simW low high mid
    by simp
qed

subsection \<open>The minimum drift\<close>


lemma applyFlow_keeps: "pos (applyFlow now p) = pos p \<and> vel (applyFlow now p) = vel p"
  by (simp add: applyFlow_def Let_def)

lemma applyWander_keeps: "pos (applyWander now p) = pos p \<and> vel (applyWander now p) = vel p"
  by (simp add: applyWander_def Let_def)

lemma applyMouse_keeps: "pos (applyMouse m p) = pos p \<and> vel (applyMouse m p) = vel p"
  by (simp add: applyMouse_def Let_def)

lemma applyWave_keeps: "pos (applyWave now wv p) = pos p \<and> vel (applyWave now wv p) = vel p"
  by (simp add: applyWave_def Let_def)

lemma fold_applyWave_keeps:
  "pos (fold (applyWave now) ws p) = pos p \<and> vel (fold (applyWave now) ws p) = vel p"
  by (induction ws arbitrary: p) (simp_all add: applyWave_keeps)

lemma accumulate_keeps:
  "pos (accumulate now m ws p) = pos p \<and> vel (accumulate now m ws p) = vel p"
  by (simp add: accumulate_def fold_applyWave_keeps applyMouse_keeps applyWander_keeps applyFlow_keeps)

lemma hypot_less_iff: "0 < c \<Longrightarrow> hypot x y < c \<longleftrightarrow> x\<^sup>2 + y\<^sup>2 < c\<^sup>2"
  unfolding hypot_def by (metis abs_of_pos real_sqrt_abs real_sqrt_less_iff)

lemma cos_two_fifths_pos: "0 < cos (2 / 5 :: real)"
proof -
  have "(2 / 5 :: real) < pi / 2" using pi_ge_two by simp
  then show ?thesis by (intro cos_gt_zero) simp_all
qed

lemma flowDir_origin: "flowDir 0 0 0 = \<lparr>X = cos (2 / 5), Y = sin (2 / 5)\<rparr>"
  by (simp add: flowDir_def Let_def)

lemma drift_square:
  fixes c s a b :: real
  assumes "c\<^sup>2 + s\<^sup>2 = 1"
  shows "(- a + c * b)\<^sup>2 + (s * b)\<^sup>2 = a\<^sup>2 + b\<^sup>2 - 2 * a * b * c"
proof -
  have "(- a + c * b)\<^sup>2 + (s * b)\<^sup>2 = a\<^sup>2 - 2 * a * b * c + b\<^sup>2 * (c\<^sup>2 + s\<^sup>2)"
    by (simp add: power2_eq_square algebra_simps)
  then show ?thesis using assms by simp
qed

text \<open>The stalled particle after damping and the clamp, whatever the forces: \<open>dt\<close> is \<open>0\<close>.\<close>

lemma stall_clamped:
  "vel (capSpeed (damp 0 (accumulate 0 m ws (particleStall\<lparr>acc := \<lparr>X = 0, Y = 0\<rparr>\<rparr>)))) = \<lparr>X = - 9.85, Y = 0\<rparr> \<and>
   pos (capSpeed (damp 0 (accumulate 0 m ws (particleStall\<lparr>acc := \<lparr>X = 0, Y = 0\<rparr>\<rparr>)))) = \<lparr>X = 0, Y = 0\<rparr>"
proof -
  let ?q = "accumulate 0 m ws (particleStall\<lparr>acc := \<lparr>X = 0, Y = 0\<rparr>\<rparr>)"
  have q: "pos ?q = \<lparr>X = 0, Y = 0\<rparr>" "vel ?q = \<lparr>X = - 10, Y = 0\<rparr>"
    by (simp_all add: accumulate_keeps particleStall_def)
  have d: "vel (damp 0 ?q) = \<lparr>X = - 9.85, Y = 0\<rparr>" "pos (damp 0 ?q) = \<lparr>X = 0, Y = 0\<rparr>"
    using q by (simp_all add: damp_def damping_def)
  have "hypot (X (vel (damp 0 ?q))) (Y (vel (damp 0 ?q))) = 9.85"
    unfolding d by (simp add: hypot_zero2)
  then have "capSpeed (damp 0 ?q) = damp 0 ?q"
    by (simp add: capSpeed_def Let_def maxSpeed_def)
  then show ?thesis using d by simp
qed

lemma stall_speed:
  assumes "vel q = \<lparr>X = - 9.85, Y = 0\<rparr>" "pos q = \<lparr>X = 0, Y = 0\<rparr>"
  shows "length_vec (X (vel q)) (Y (vel q)) < 20 \<and>
         hypot (X (vel (keepDrift 0 q))) (Y (vel (keepDrift 0 q))) < 15"
proof -
  have vL: "length_vec (X (vel q)) (Y (vel q)) = 9.85"
    using assms by (simp add: length_vec_def hypot_zero2)
  let ?c = "cos (2 / 5 :: real)" and ?s = "sin (2 / 5 :: real)"
  have v: "vel (keepDrift 0 q) = \<lparr>X = - 9.85 + ?c * 10.15, Y = ?s * 10.15\<rparr>"
    using vL assms by (simp add: keepDrift_def Let_def flowDir_origin)
  have "(- 9.85 + ?c * 10.15)\<^sup>2 + (?s * 10.15)\<^sup>2 = 200.045 - 199.955 * ?c"
    using drift_square[of ?c ?s "9.85" "10.15"] by (simp add: power2_eq_square)
  also have "\<dots> < 15\<^sup>2" using cos_two_fifths_pos by simp
  finally have "hypot (- 9.85 + ?c * 10.15) (?s * 10.15) < 15"
    by (simp add: hypot_less_iff)
  then show ?thesis using vL v by simp
qed

text \<open>
  What the injection does reach: a speed of at most \<open>minV\<close>, by the triangle inequality.
\<close>

lemma keepDrift_at_most_minV:
  assumes "length_vec (X (vel p)) (Y (vel p)) < 20"
  shows "speed (keepDrift now p) \<le> 20"
proof -
  let ?d = "flowDir (X (pos p) * 1.2) (Y (pos p) * 1.1) (now * 0.001)"
  let ?k = "20 - speed p"
  have lt: "speed p < 20" using assms by (simp add: speed_def length_vec_def)
  have "speed (keepDrift now p) = hypot (X (vel p) + X ?d * ?k) (Y (vel p) + Y ?d * ?k)"
    using lt by (simp add: keepDrift_def speed_def length_vec_def Let_def)
  also have "\<dots> \<le> speed p + hypot (X ?d * ?k) (Y ?d * ?k)"
    unfolding speed_def by (rule hypot_triangle)
  also have "hypot (X ?d * ?k) (Y ?d * ?k) = ?k"
    using lt by (simp add: hypot_scale flowDir_unit)
  finally show ?thesis by simp
qed

text \<open>
  C4, on the code: a step with \<open>dt = 0\<close> on the state with the particle at the origin
  moving with velocity \<open>(-10, 0)\<close>. After damping and the clamp its speed is \<open>9.85\<close>,
  below \<open>minV = 20\<close>, so the drift is injected; the flow direction there is
  \<open>(cos 0.4, sin 0.4)\<close>, and the speed at the end of the step is below \<open>15\<close>: the
  injection adds \<open>minV - vL\<close> along the flow direction, which brings the speed to \<open>minV\<close>
  only when the particle already moves along it.
\<close>

theorem minimum_drift_missed:
  "\<exists>s' p. stepPhysics 0 0 simStall = Inr s' \<and> particles s' = [p] \<and>
     length_vec (X (vel (capSpeed (damp 0 (accumulate 0 (mouse simStall) (waves simStall)
         (particleStall\<lparr>acc := \<lparr>X = 0, Y = 0\<rparr>\<rparr>))))))
                (Y (vel (capSpeed (damp 0 (accumulate 0 (mouse simStall) (waves simStall)
         (particleStall\<lparr>acc := \<lparr>X = 0, Y = 0\<rparr>\<rparr>)))))) < 20 \<and>
     hypot (X (vel p)) (Y (vel p)) < 15"
proof -
  let ?q = "capSpeed (damp 0 (accumulate 0 (mouse simStall) (waves simStall)
         (particleStall\<lparr>acc := \<lparr>X = 0, Y = 0\<rparr>\<rparr>)))"
  have ok: "grid_ok (grid simStall)" using grid_ok_simW by (simp add: simStall_def)
  have nowaves: "fadeWaves 0 (width simStall) (height simStall) (waves simStall) = []"
    by (simp add: fadeWaves_def simStall_def simW_def)
  obtain g where "stepPhysics 0 0 simStall = Inr (simStall\<lparr>grid := g,
       particles := [integrate 0 0 (width simStall) (height simStall)
          (accumulate 0 (mouse simStall) (waves simStall) (particleStall\<lparr>acc := \<lparr>X = 0, Y = 0\<rparr>\<rparr>))],
       waves := []\<rparr>)"
    using stepPhysics_returns[OF ok, of 0 0] unfolding nowaves by (auto simp: simStall_def)
  moreover have "hypot (X (vel (integrate 0 0 (width simStall) (height simStall)
          (accumulate 0 (mouse simStall) (waves simStall) (particleStall\<lparr>acc := \<lparr>X = 0, Y = 0\<rparr>\<rparr>)))))
       (Y (vel (integrate 0 0 (width simStall) (height simStall)
          (accumulate 0 (mouse simStall) (waves simStall) (particleStall\<lparr>acc := \<lparr>X = 0, Y = 0\<rparr>\<rparr>))))) < 15"
    using stall_speed[OF conjunct1[OF stall_clamped] conjunct2[OF stall_clamped], of "mouse simStall" "waves simStall"]
      speed_move[of 0 "keepDrift 0 ?q"] speed_softWrap[of "width simStall" "height simStall" "move 0 (keepDrift 0 ?q)"]
    by (simp add: integrate_def speed_def)
  moreover have "length_vec (X (vel ?q)) (Y (vel ?q)) < 20"
    using stall_speed[OF conjunct1[OF stall_clamped] conjunct2[OF stall_clamped], of "mouse simStall" "waves simStall"]
    by simp
  ultimately show ?thesis by auto
qed

subsection \<open>Mounting without a drawing context\<close>


lemma resize_throws:
  assumes "getContext pg = None"
  shows "resize src (pg, s) =
     Threw TypeError
       (pg\<lparr>canvasWidth := nat (max 1 \<lfloor>innerWidth pg\<rfloor>) * DPR s,
           canvasHeight := nat (max 1 \<lfloor>innerHeight pg\<rfloor>) * DPR s\<rparr>,
        s\<lparr>width := nat (max 1 \<lfloor>innerWidth pg\<rfloor>), height := nat (max 1 \<lfloor>innerHeight pg\<rfloor>)\<rparr>)"
  using assms by (simp add: resize_def Let_def)

lemma resize_throws_again:
  assumes "getContext pg = None"
  shows "resize src' (pg\<lparr>canvasWidth := nat (max 1 \<lfloor>innerWidth pg\<rfloor>) * DPR s,
           canvasHeight := nat (max 1 \<lfloor>innerHeight pg\<rfloor>) * DPR s\<rparr>,
        s\<lparr>width := nat (max 1 \<lfloor>innerWidth pg\<rfloor>), height := nat (max 1 \<lfloor>innerHeight pg\<rfloor>)\<rparr>)
    = Threw TypeError
       (pg\<lparr>canvasWidth := nat (max 1 \<lfloor>innerWidth pg\<rfloor>) * DPR s,
           canvasHeight := nat (max 1 \<lfloor>innerHeight pg\<rfloor>) * DPR s\<rparr>,
        s\<lparr>width := nat (max 1 \<lfloor>innerWidth pg\<rfloor>), height := nat (max 1 \<lfloor>innerHeight pg\<rfloor>)\<rparr>)"
  using assms by (simp add: resize_def Let_def)

lemma resize_registered: "(Window, ''resize'', Resize) \<in> set (ls @ registrations)"
  by (simp add: registrations_def)

text \<open>
  C5, as stated, fails on the full-HD page without a drawing context: mounting does not
  decline quietly, it throws; the resize listener it registered before is still there
  and throws again when the window is resized; and unmounting releases nothing, the six
  listeners stay registered.
\<close>

theorem mount_without_context_throws:
  "mount srcW 0 pageNoCtx = Threw TypeError stateNoCtx \<and>
   resizeEvent srcW stateNoCtx = Threw TypeError stateNoCtx \<and>
   listeners (unmount (mount srcW 0 pageNoCtx)) = registrations"
proof -
  have c: "getContext pageNoCtx = None" by (simp add: pageNoCtx_def)
  have m: "mount srcW 0 pageNoCtx = Threw TypeError stateNoCtx"
    by (simp add: mount_def Let_def pageNoCtx_def pageW_def stateNoCtx_def resize_def)
  have r: "resizeEvent srcW stateNoCtx = Threw TypeError stateNoCtx"
    by (simp add: resizeEvent_def stateNoCtx_def registrations_def resize_def Let_def pageNoCtx_def pageW_def)
  have u: "listeners (unmount (mount srcW 0 pageNoCtx)) = registrations"
    unfolding m by (simp add: unmount_def stateNoCtx_def)
  show ?thesis using m r u by simp
qed

text \<open>
  C5, amended. When the canvas hands out no drawing context, the effect throws a
  \<open>TypeError\<close> in its initial resize, after it has registered its six listeners and before
  it requests an animation frame. So no frame is pending; the effect has returned no
  teardown function, so unmounting runs nothing and leaves the page as the throw left it;
  and every later resize of the window, to whatever size, throws the same error again.
\<close>

theorem mount_without_context:
  assumes "getContext pg = None"
  shows "\<exists>st. mount src now pg = Threw TypeError st \<and>
           frames (fst st) = frames pg \<and> frameCount (fst st) = frameCount pg \<and>
           listeners (fst st) = listeners pg @ registrations \<and>
           unmount (mount src now pg) = fst st \<and>
           (\<forall>src'. resizeEvent src' st = Threw TypeError st) \<and>
           (\<forall>src' w h. \<exists>st'.
              resizeEvent src' ((fst st)\<lparr>innerWidth := w, innerHeight := h\<rparr>, snd st)
                = Threw TypeError st')"
proof -
  define s0 where "s0 = \<lparr>DPR = nat (max 1 \<lfloor>if devicePixelRatio pg = 0 then 1 else devicePixelRatio pg\<rfloor>),
                width = 0, height = 0, particles = [],
                grid = newGrid maxLinkDist, waves = [],
                mouse = \<lparr>mpos = \<lparr>X = 0, Y = 0\<rparr>, inside = False, down = False\<rparr>,
                lastT = 0, raf = 0\<rparr>"
  define pg1 where "pg1 = pg\<lparr>listeners := listeners pg @ registrations\<rparr>"
  define st where "st = (pg1\<lparr>canvasWidth := nat (max 1 \<lfloor>innerWidth pg1\<rfloor>) * DPR s0,
           canvasHeight := nat (max 1 \<lfloor>innerHeight pg1\<rfloor>) * DPR s0\<rparr>,
        s0\<lparr>width := nat (max 1 \<lfloor>innerWidth pg1\<rfloor>), height := nat (max 1 \<lfloor>innerHeight pg1\<rfloor>)\<rparr>)"
  have c1: "getContext pg1 = None" using assms by (simp add: pg1_def)
  have m: "mount src now pg = (case resize src (pg1, s0) of
           Threw e st \<Rightarrow> Threw e st
         | Done st \<Rightarrow>
             (let k = Suc (frameCount (fst st))
              in Done ((fst st)\<lparr>frames := frames (fst st) @ [k], frameCount := k\<rparr>,
                       (snd st)\<lparr>lastT := now, raf := k\<rparr>)))"
    by (simp add: mount_def Let_def s0_def pg1_def)
  have run: "mount src now pg = Threw TypeError st"
    unfolding m resize_throws[OF c1] st_def by simp
  have again: "resize src' st = Threw TypeError st" for src'
    unfolding st_def by (rule resize_throws_again[OF c1])
  have reg: "(Window, ''resize'', Resize) \<in> set (listeners (fst st))"
    using resize_registered[of "listeners pg"] by (simp add: st_def pg1_def)
  have "resizeEvent src' st = Threw TypeError st" for src'
    using again reg by (simp add: resizeEvent_def)
  moreover have "\<exists>st'. resizeEvent src' ((fst st)\<lparr>innerWidth := w, innerHeight := h\<rparr>, snd st)
                = Threw TypeError st'" for src' w h
  proof -
    have "getContext ((fst st)\<lparr>innerWidth := w, innerHeight := h\<rparr>) = None"
      using c1 by (simp add: st_def)
    then show ?thesis
      using reg resize_throws[of "(fst st)\<lparr>innerWidth := w, innerHeight := h\<rparr>" src' "snd st"]
      by (simp add: resizeEvent_def)
  qed
  moreover have "frames (fst st) = frames pg" "frameCount (fst st) = frameCount pg"
      "listeners (fst st) = listeners pg @ registrations"
    by (simp_all add: st_def pg1_def)
  moreover have "unmount (mount src now pg) = fst st" unfolding run by (simp add: unmount_def)
  ultimately show ?thesis using run by blast
qed

text \<open>An instance: the full-HD page without a drawing context.\<close>

theorem mount_without_context_witness:
  "getContext pageNoCtx = None \<and>
   mount srcW 0 pageNoCtx = Threw TypeError stateNoCtx \<and>
   frames (fst stateNoCtx) = [] \<and>
   unmount (mount srcW 0 pageNoCtx) = fst stateNoCtx \<and>
   resizeEvent srcW stateNoCtx = Threw TypeError stateNoCtx"
proof -
  have c: "getContext pageNoCtx = None" by (simp add: pageNoCtx_def)
  have "mount srcW 0 pageNoCtx = Threw TypeError stateNoCtx"
    by (simp add: mount_def Let_def resize_throws[OF c] pageNoCtx_def pageW_def stateNoCtx_def resize_def)
  then show ?thesis
    using mount_without_context[OF c, of srcW 0] c by (auto simp: pageNoCtx_def pageW_def)
qed


subsection \<open>Degenerate distances\<close>


lemma hypot_zero: "hypot 0 0 = 0"
  by (simp add: hypot_def)

lemma normalize_small: "hypot x y \<le> 1 / 10 ^ 6 \<Longrightarrow> normalize_vec x y = \<lparr>X = 0, Y = 0\<rparr>"
  by (simp add: normalize_vec_def Let_def)

lemma normalize_large:
  "hypot x y > 1 / 10 ^ 6 \<Longrightarrow> normalize_vec x y = \<lparr>X = x / hypot x y, Y = y / hypot x y\<rparr>"
  by (simp add: normalize_vec_def Let_def)

lemma applyMouse_at_pointer:
  assumes "pos p = mpos m"
  shows "applyMouse m p = p"
  using assms by (simp add: applyMouse_def Let_def hypot_zero normalize_small)

lemma applyWave_at_origin:
  assumes "pos p = origin wv"
  shows "applyWave now wv p = p"
  using assms by (simp add: applyWave_def Let_def hypot_zero normalize_small)

lemma fold_applyWave_at_origin:
  assumes "list_all (\<lambda>wv. origin wv = pos p) ws"
  shows "fold (applyWave now) ws p = p"
  using assms by (induction ws) (simp_all add: applyWave_at_origin)

text \<open>
  C6. A particle exactly at the pointer gets no acceleration from the mouse avoidance, and
  a particle exactly at a wave's origin gets none from that wave: each leaves the
  particle as it was. With the pointer and every wave origin at the particle, the whole
  accumulation is flow steering and wander alone. The reason is \<open>normalize\<close>: it returns the
  zero vector whenever the magnitude is at most \<open>1e-6\<close>, and divides, by that magnitude,
  only when it is greater, so neither path divides by zero.
\<close>

theorem degenerate_distance_contributes_nothing:
  "(pos p = mpos m \<longrightarrow> applyMouse m p = p) \<and>
   (pos p = origin wv \<longrightarrow> applyWave now wv p = p) \<and>
   (pos p = mpos m \<and> list_all (\<lambda>wv. origin wv = pos p) ws \<longrightarrow>
      accumulate now m ws p = applyWander now (applyFlow now p)) \<and>
   (hypot x y \<le> 1 / 10 ^ 6 \<longrightarrow> normalize_vec x y = \<lparr>X = 0, Y = 0\<rparr>) \<and>
   (hypot x y > 1 / 10 ^ 6 \<longrightarrow> normalize_vec x y = \<lparr>X = x / hypot x y, Y = y / hypot x y\<rparr>)"
proof -
  have "accumulate now m ws p = applyWander now (applyFlow now p)"
    if a: "pos p = mpos m" and b: "list_all (\<lambda>wv. origin wv = pos p) ws"
  proof -
    let ?q = "applyWander now (applyFlow now p)"
    have q: "pos ?q = pos p" by (simp add: applyWander_keeps applyFlow_keeps)
    have "applyMouse m ?q = ?q" using a q by (simp add: applyMouse_at_pointer)
    moreover have "fold (applyWave now) ws ?q = ?q"
      using b q by (simp add: fold_applyWave_at_origin)
    ultimately show ?thesis by (simp add: accumulate_def)
  qed
  then show ?thesis
    using applyMouse_at_pointer applyWave_at_origin normalize_small normalize_large by blast
qed

text \<open>An instance: the pointer and two waves on the example particle.\<close>

theorem degenerate_distance_contributes_nothing_witness:
  "inside pointerW \<and> pos particleW = mpos pointerW \<and> pos particleW = origin waveW \<and>
   applyMouse pointerW particleW = particleW \<and>
   applyWave 50 waveW particleW = particleW \<and>
   accumulate 50 pointerW [waveW, waveW] particleW = applyWander 50 (applyFlow 50 particleW) \<and>
   normalize_vec 0 0 = \<lparr>X = 0, Y = 0\<rparr> \<and>
   normalize_vec 3 0 = \<lparr>X = 3 / hypot 3 0, Y = 0 / hypot 3 0\<rparr>"
proof -
  have h: "pos particleW = mpos pointerW" "pos particleW = origin waveW" "inside pointerW"
    "list_all (\<lambda>wv. origin wv = pos particleW) [waveW, waveW]"
    by (simp_all add: particleW_def pointerW_def waveW_def)
  have z: "hypot 0 0 \<le> 1 / 10 ^ 6" "hypot 3 0 > 1 / 10 ^ 6"
    by (simp_all add: hypot_zero2)
  show ?thesis
    using degenerate_distance_contributes_nothing[of particleW pointerW waveW 50 "[waveW, waveW]" 0 0]
      degenerate_distance_contributes_nothing[of particleW pointerW waveW 50 "[waveW, waveW]" 3 0] h z
    by simp
qed

subsection \<open>The five nearest neighbours\<close>




















subsection \<open>The particle count after a resize\<close>


lemma resize_particles_cases:
  "(if length ps = 0 then map f [0..<n]
    else if length ps < n then ps @ map f [length ps..<n]
    else if length ps > n then take n ps else ps)
   = take n ps @ map f [length ps..<n]"
  by (cases "length ps" n rule: linorder_cases) auto

lemma resize_done:
  assumes "getContext pg = Some c"
  shows "resize src (pg, s) =
     Done (pg\<lparr>canvasWidth := nat (max 1 \<lfloor>innerWidth pg\<rfloor>) * DPR s,
              canvasHeight := nat (max 1 \<lfloor>innerHeight pg\<rfloor>) * DPR s,
              getContext := Some (c\<lparr>transform := (DPR s, 0, 0, DPR s, 0, 0)\<rparr>)\<rparr>,
           s\<lparr>width := nat (max 1 \<lfloor>innerWidth pg\<rfloor>), height := nat (max 1 \<lfloor>innerHeight pg\<rfloor>),
             grid := grid_resize (grid s) (real (nat (max 1 \<lfloor>innerWidth pg\<rfloor>))) (real (nat (max 1 \<lfloor>innerHeight pg\<rfloor>))),
             particles := take (targetOf pg) (particles s) @
                map (makeParticle (nat (max 1 \<lfloor>innerWidth pg\<rfloor>)) (nat (max 1 \<lfloor>innerHeight pg\<rfloor>)) src)
                    [length (particles s)..<targetOf pg]\<rparr>)"
  using assms
  by (simp add: resize_def Let_def targetOf_def resize_particles_cases del: max.bounded_iff)

lemma resize_returns:
  assumes "getContext pg = Some c"
  shows "\<exists>pg' s'. resize src (pg, s) = Done (pg', s') \<and> length (particles s') = targetOf pg \<and>
           width s' = nat (max 1 \<lfloor>innerWidth pg\<rfloor>) \<and> height s' = nat (max 1 \<lfloor>innerHeight pg\<rfloor>) \<and>
           particles s' = take (targetOf pg) (particles s) @
                map (makeParticle (width s') (height s') src) [length (particles s)..<targetOf pg]"
  unfolding resize_done[OF assms] by auto


lemma targetOf_half: "innerWidth pg = 960 \<and> innerHeight pg = 540 \<Longrightarrow> targetOf pg = 80"
  by (simp add: targetOf_def particleCountBase_def)

lemma length_resized:
  "length (take n ps @ map f [length ps..<n]) = n"
  by auto




subsection \<open>What a resize keeps\<close>

text \<open>
  C9. A resize of a page with a drawing context that takes the particle count from \<open>N\<close> up
  to \<open>M\<close> keeps the first \<open>N\<close> particles as they were, every field of them, and appends
  the \<open>M - N\<close> particles \<open>makeParticle\<close> makes for the indices \<open>N\<close> to \<open>M - 1\<close>; one that takes
  it down to \<open>M\<close> keeps exactly the first \<open>M\<close> particles as they were; one that leaves the
  count alone leaves the particles alone.
\<close>

theorem resize_keeps_prefix:
  assumes "getContext pg = Some c"
  shows "\<exists>pg' s'. resize src (pg, s) = Done (pg', s') \<and>
           (length (particles s) < length (particles s') \<longrightarrow>
              take (length (particles s)) (particles s') = particles s \<and>
              drop (length (particles s)) (particles s') =
                map (makeParticle (width s') (height s') src)
                    [length (particles s)..<length (particles s')] \<and>
              length (drop (length (particles s)) (particles s')) =
                length (particles s') - length (particles s)) \<and>
           (length (particles s') < length (particles s) \<longrightarrow>
              particles s' = take (length (particles s')) (particles s)) \<and>
           (length (particles s') = length (particles s) \<longrightarrow> particles s' = particles s)"
proof -
  obtain pg' s' where run: "resize src (pg, s) = Done (pg', s')"
    and ps: "particles s' = take (targetOf pg) (particles s) @
                map (makeParticle (width s') (height s') src) [length (particles s)..<targetOf pg]"
    using resize_returns[OF assms] by blast
  have len: "length (particles s') = targetOf pg" unfolding ps by (rule length_resized)
  have grow: "take (length (particles s)) (particles s') = particles s \<and>
              drop (length (particles s)) (particles s') =
                map (makeParticle (width s') (height s') src)
                    [length (particles s)..<length (particles s')] \<and>
              length (drop (length (particles s)) (particles s')) =
                length (particles s') - length (particles s)"
    if "length (particles s) < length (particles s')"
  proof -
    have "particles s' = particles s @
            map (makeParticle (width s') (height s') src) [length (particles s)..<targetOf pg]"
      using that ps len by simp
    then show ?thesis using len by (metis append_eq_conv_conj length_drop)
  qed
  have shrink: "particles s' = take (length (particles s')) (particles s)"
    if "length (particles s') < length (particles s)"
    using that ps len by simp
  have same: "particles s' = particles s" if "length (particles s') = length (particles s)"
    using that ps len by simp
  show ?thesis using run grow shrink same by blast
qed

text \<open>An instance: the half page, from one particle, from 81 and from 80.\<close>

theorem resize_keeps_prefix_witness:
  "getContext pageHalf = Some \<lparr>transform = (1, 0, 0, 1, 0, 0)\<rparr> \<and>
   (\<exists>pg' s'. resize srcW (pageHalf, simW) = Done (pg', s') \<and> length (particles s') = 80 \<and>
      take 1 (particles s') = [particleW] \<and>
      drop 1 (particles s') = map (makeParticle (width s') (height s') srcW) [1..<80]) \<and>
   (\<exists>pg' s'. resize srcW (pageHalf, simW\<lparr>particles := replicate 81 particleW\<rparr>) = Done (pg', s') \<and>
      particles s' = replicate 80 particleW) \<and>
   (\<exists>pg' s'. resize srcW (pageHalf, simW\<lparr>particles := replicate 80 particleW\<rparr>) = Done (pg', s') \<and>
      particles s' = replicate 80 particleW)"
proof -
  have c: "getContext pageHalf = Some \<lparr>transform = (1, 0, 0, 1, 0, 0)\<rparr>"
    by (simp add: pageW_def pageHalf_def)
  have d: "innerWidth pageHalf = 960 \<and> innerHeight pageHalf = 540"
    by (simp add: pageW_def pageHalf_def)
  have n1: "length (particles simW) = 1" by (simp add: simW_def)
  have p1: "particles simW = [particleW]" by (simp add: simW_def)
  have g: "\<exists>pg' s'. resize srcW (pageHalf, simW) = Done (pg', s') \<and> length (particles s') = 80 \<and>
      take 1 (particles s') = [particleW] \<and>
      drop 1 (particles s') = map (makeParticle (width s') (height s') srcW) [1..<80]"
    using resize_keeps_prefix[OF c, of srcW simW] resize_returns[OF c, of srcW simW] targetOf_half[OF d]
    unfolding n1 p1 by auto
  have sh: "\<exists>pg' s'. resize srcW (pageHalf, simW\<lparr>particles := replicate 81 particleW\<rparr>) = Done (pg', s') \<and>
      particles s' = replicate 80 particleW"
    using resize_keeps_prefix[OF c, of srcW "simW\<lparr>particles := replicate 81 particleW\<rparr>"]
      resize_returns[OF c, of srcW "simW\<lparr>particles := replicate 81 particleW\<rparr>"] targetOf_half[OF d]
    by auto
  have eq: "\<exists>pg' s'. resize srcW (pageHalf, simW\<lparr>particles := replicate 80 particleW\<rparr>) = Done (pg', s') \<and>
      particles s' = replicate 80 particleW"
    using resize_keeps_prefix[OF c, of srcW "simW\<lparr>particles := replicate 80 particleW\<rparr>"]
      resize_returns[OF c, of srcW "simW\<lparr>particles := replicate 80 particleW\<rparr>"] targetOf_half[OF d]
    by auto
  show ?thesis using c g sh eq by blast
qed

subsection \<open>Fresh particles\<close>







end
